theory Spec2Isabelle
  imports Main
begin

section \<open>The element tree handed to the playground's components\<close>

text \<open>
  The snippet a visitor edits is evaluated to a tree of React elements. The type of an
  element is compared by identity with the class \<^verbatim>\<open>Node\<close> of Playground.tsx; every
  other type (the wrapper \<^verbatim>\<open>Layout\<close>, a host tag such as \<^verbatim>\<open>div\<close>, a fragment) is one
  of the remaining constructors.
\<close>

datatype element_type = NodeT | LayoutT | HostT string | FragmentT

text \<open>
  A value of the declared type \<^verbatim>\<open>React.ReactNode\<close> of the \<^verbatim>\<open>children\<close> prop:
  \<^verbatim>\<open>null\<close>, \<^verbatim>\<open>undefined\<close>, a boolean, a string, a number, an element, a portal, or
  an iterable of such values. An iterable is either one that yields the same items every
  time it is iterated, as an array does, or one that can be iterated only once, as a
  generator object; the latter is given by the items it has yet to yield, and each such
  object occurs at one place of a tree. An element carries its type and, of its props,
  the two that Playground.tsx reads: \<^verbatim>\<open>props.style\<close> and \<^verbatim>\<open>props.children\<close>. The style
  \<^typ>\<open>'s\<close> and the payload \<^typ>\<open>'n\<close> of a number are never inspected by the code.
\<close>

datatype ('s, 'n) ReactNode =
    RNull
  | RUndefined
  | RBoolean bool
  | RString string
  | RNumber 'n
  | RElement "('s, 'n) ReactElement"
  | RPortal
  | RArray "('s, 'n) ReactNode list"
  | RGenerator "('s, 'n) ReactNode list"
and ('s, 'n) ReactElement =
    Element (etype: element_type) (props_style: 's) (props_children: "('s, 'n) ReactNode")

text \<open>\<^verbatim>\<open>type StyleNode = {style: FlexStyle, children: StyleNode[]}\<close>, the flattened tree.\<close>

datatype 's StyleNode = StyleNode (style: 's) (children: "'s StyleNode list")

subsection \<open>The functions of \<^verbatim>\<open>React.Children\<close> that the file calls\<close>

text \<open>
  \<^verbatim>\<open>React.isValidElement\<close> holds of element objects only (not of portals, strings, ...).
\<close>

fun isValidElement :: "('s, 'n) ReactNode \<Rightarrow> bool" where
  "isValidElement (RElement e) = True"
| "isValidElement _ = False"

text \<open>
  React's traversal of a children value (\<^verbatim>\<open>mapIntoArray\<close>): \<^verbatim>\<open>undefined\<close> and
  booleans are visited as \<^verbatim>\<open>null\<close>; \<^verbatim>\<open>null\<close>, strings, numbers, elements and portals are
  visited as they are; an iterable is not visited itself, the items it yields are, in
  order and to any depth. The children of an element are not entered.
\<close>

fun mapIntoArray :: "('s, 'n) ReactNode \<Rightarrow> ('s, 'n) ReactNode list" where
  "mapIntoArray RNull = [RNull]"
| "mapIntoArray RUndefined = [RNull]"
| "mapIntoArray (RBoolean b) = [RNull]"
| "mapIntoArray (RString s) = [RString s]"
| "mapIntoArray (RNumber n) = [RNumber n]"
| "mapIntoArray (RElement e) = [RElement e]"
| "mapIntoArray RPortal = [RPortal]"
| "mapIntoArray (RArray cs) = concat (map mapIntoArray cs)"
| "mapIntoArray (RGenerator cs) = concat (map mapIntoArray cs)"

text \<open>
  \<^verbatim>\<open>mapChildren\<close> returns at once when the whole children value is \<^verbatim>\<open>null\<close> or
  \<^verbatim>\<open>undefined\<close>; otherwise it visits the traversal above. The list is the sequence of
  arguments the callback receives.
\<close>

fun mapChildren :: "('s, 'n) ReactNode \<Rightarrow> ('s, 'n) ReactNode list" where
  "mapChildren RNull = []"
| "mapChildren RUndefined = []"
| "mapChildren c = mapIntoArray c"

text \<open>
  \<^verbatim>\<open>React.Children.forEach(children, fn)\<close>: the callback runs on every visited child, in
  order; what the callback writes is the state \<^typ>\<open>'a\<close> threaded through.
\<close>

definition Children_forEach ::
  "('s, 'n) ReactNode \<Rightarrow> (('s, 'n) ReactNode \<Rightarrow> 'a \<Rightarrow> 'a) \<Rightarrow> 'a \<Rightarrow> 'a" where
  "Children_forEach c fn acc = fold fn (mapChildren c) acc"

text \<open>\<^verbatim>\<open>React.Children.count\<close>: the number of visited children.\<close>

definition Children_count :: "('s, 'n) ReactNode \<Rightarrow> nat" where
  "Children_count c = Children_forEach c (\<lambda>_ n. n + 1) 0"

lemma size_mapIntoArray:
  "x \<in> set (mapIntoArray c) \<Longrightarrow> size x \<le> size c"
proof (induction c arbitrary: x rule: mapIntoArray.induct)
  case (8 cs)
  then obtain c where c: "c \<in> set cs" and x: "x \<in> set (mapIntoArray c)"
    by auto
  from "8.IH" [OF c x] have "size x \<le> size c" .
  moreover from c have "size c \<le> size_list size cs"
    by (simp add: size_list_estimation')
  ultimately show ?case by simp
next
  case (9 cs)
  then obtain c where c: "c \<in> set cs" and x: "x \<in> set (mapIntoArray c)"
    by auto
  from "9.IH" [OF c x] have "size x \<le> size c" .
  moreover from c have "size c \<le> size_list size cs"
    by (simp add: size_list_estimation')
  ultimately show ?case by simp
qed simp_all

lemma size_mapChildren:
  "x \<in> set (mapChildren c) \<Longrightarrow> size x \<le> size c"
  by (cases c) (auto dest: size_mapIntoArray simp del: mapIntoArray.simps)

lemma Children_forEach_cong [fundef_cong]:
  assumes "c = c'" and "acc = acc'"
    and "\<And>x a. x \<in> set (mapChildren c') \<Longrightarrow> fn x a = fn' x a"
  shows "Children_forEach c fn acc = Children_forEach c' fn' acc'"
  unfolding Children_forEach_def using assms
  by (auto intro!: fold_cong)

section \<open>The tree flattener\<close>

text \<open>
  \<^verbatim>\<open>styleNodeFromYogaNode\<close>: a fresh array \<^verbatim>\<open>children\<close>; for each child that is a valid
  element of type \<^verbatim>\<open>Node\<close> the flattened child is pushed; the result is the object
  \<^verbatim>\<open>{style: yogaNode.props.style, children}\<close>.
\<close>

function styleNodeFromYogaNode :: "('s, 'n) ReactElement \<Rightarrow> 's StyleNode" where
  "styleNodeFromYogaNode yogaNode =
     (let children =
        Children_forEach (props_children yogaNode)
          (\<lambda>child children.
             case child of
               RElement e \<Rightarrow>
                 if etype e = NodeT then children @ [styleNodeFromYogaNode e] else children
             | _ \<Rightarrow> children)
          []
      in StyleNode (props_style yogaNode) children)"
  by pat_completeness auto
termination
proof (relation "measure size")
  fix yogaNode :: "('s, 'n) ReactElement" and x e
  assume "x \<in> set (mapChildren (props_children yogaNode))" and "x = RElement e"
  then have "size (RElement e) \<le> size (props_children yogaNode)"
    using size_mapChildren by blast
  then show "(e, yogaNode) \<in> measure size"
    by (cases yogaNode) simp
qed simp

declare styleNodeFromYogaNode.simps [simp del]

text \<open>
  The children of a declarative node that the flattener recognises: the visited children
  that are valid elements of type \<^verbatim>\<open>Node\<close>, in the order of the visit.
\<close>

fun asNode :: "('s, 'n) ReactNode \<Rightarrow> ('s, 'n) ReactElement option" where
  "asNode (RElement e) = (if etype e = NodeT then Some e else None)"
| "asNode _ = None"

text \<open>The test of the callback: \<^verbatim>\<open>React.isValidElement(child) && child.type === Node\<close>.\<close>

fun child_type :: "('s, 'n) ReactNode \<Rightarrow> element_type option" where
  "child_type (RElement e) = Some (etype e)"
| "child_type _ = None"

definition isRecognized :: "('s, 'n) ReactNode \<Rightarrow> bool" where
  "isRecognized child = (isValidElement child \<and> child_type child = Some NodeT)"

definition recognizedChildren :: "('s, 'n) ReactNode \<Rightarrow> ('s, 'n) ReactElement list" where
  "recognizedChildren c = List.map_filter asNode (mapChildren c)"

lemma push_recognized:
  "fold (\<lambda>child children.
           case child of
             RElement e \<Rightarrow> if etype e = NodeT then children @ [f e] else children
           | _ \<Rightarrow> children) xs acc
   = acc @ map f (List.map_filter asNode xs)"
proof (induction xs arbitrary: acc)
  case Nil
  show ?case by (simp add: List.map_filter_simps)
next
  case (Cons x xs)
  show ?case
    by (cases x) (simp_all add: Cons.IH List.map_filter_simps)
qed

lemma length_map_filter_asNode:
  "length (List.map_filter asNode xs) = length (filter isRecognized xs)"
proof (induction xs)
  case Nil
  show ?case by (simp add: List.map_filter_simps)
next
  case (Cons x xs)
  then show ?case
    by (cases x) (simp_all add: List.map_filter_simps isRecognized_def)
qed

lemma styleNodeFromYogaNode_unfold:
  "styleNodeFromYogaNode yogaNode =
     StyleNode (props_style yogaNode)
       (map styleNodeFromYogaNode (recognizedChildren (props_children yogaNode)))"
  by (subst styleNodeFromYogaNode.simps)
     (simp add: Children_forEach_def recognizedChildren_def push_recognized)

section \<open>The objects the flattener creates\<close>

text \<open>
  The flattener above gives the value of the result of one call. What a call does to
  memory is followed here: it creates an array, pushes onto it, creates the object that
  it returns, and iterates the iterables among the children. An address is the position
  of an object in the heap, in order of creation.
\<close>

type_synonym addr = nat

datatype 's JSObject = ArrayObject "addr list" | StyleNodeObject 's addr

type_synonym 's heap = "'s JSObject list"

text \<open>A new object gets the next address.\<close>

definition alloc :: "'s JSObject \<Rightarrow> 's heap \<Rightarrow> addr \<times> 's heap" where
  "alloc obj h = (length h, h @ [obj])"

text \<open>
  \<^verbatim>\<open>children.push(x)\<close>, for the array at the address \<^verbatim>\<open>arr\<close>. The flattener calls it
  only with the address of the array it has just created.
\<close>

definition push :: "addr \<Rightarrow> addr \<Rightarrow> 's heap \<Rightarrow> 's heap" where
  "push arr x h =
     (if arr < length h then
        case h ! arr of
          ArrayObject xs \<Rightarrow> h[arr := ArrayObject (xs @ [x])]
        | StyleNodeObject s c \<Rightarrow> h
      else h)"

text \<open>
  React's traversal once more, now with what it does to the children value. The callback
  returns its state and the visited child as it leaves it; an element is an object that a
  callback can change, the other children are values and stay as they are. An iterable
  that can be iterated only once has yielded all its items when the traversal is over.
\<close>

fun mapIntoArray_st ::
    "('s, 'n) ReactNode \<Rightarrow> (('s, 'n) ReactNode \<Rightarrow> 'a \<Rightarrow> 'a \<times> ('s, 'n) ReactNode) \<Rightarrow> 'a
       \<Rightarrow> 'a \<times> ('s, 'n) ReactNode"
  and mapIntoArray_items ::
    "('s, 'n) ReactNode list \<Rightarrow> (('s, 'n) ReactNode \<Rightarrow> 'a \<Rightarrow> 'a \<times> ('s, 'n) ReactNode) \<Rightarrow> 'a
       \<Rightarrow> 'a \<times> ('s, 'n) ReactNode list" where
  "mapIntoArray_st RNull fn acc = (fst (fn RNull acc), RNull)"
| "mapIntoArray_st RUndefined fn acc = (fst (fn RNull acc), RUndefined)"
| "mapIntoArray_st (RBoolean b) fn acc = (fst (fn RNull acc), RBoolean b)"
| "mapIntoArray_st (RString s) fn acc = (fst (fn (RString s) acc), RString s)"
| "mapIntoArray_st (RNumber n) fn acc = (fst (fn (RNumber n) acc), RNumber n)"
| "mapIntoArray_st (RElement e) fn acc = fn (RElement e) acc"
| "mapIntoArray_st RPortal fn acc = (fst (fn RPortal acc), RPortal)"
| "mapIntoArray_st (RArray cs) fn acc =
     (let (acc', cs') = mapIntoArray_items cs fn acc in (acc', RArray cs'))"
| "mapIntoArray_st (RGenerator cs) fn acc =
     (let (acc', cs') = mapIntoArray_items cs fn acc in (acc', RGenerator []))"
| "mapIntoArray_items [] fn acc = (acc, [])"
| "mapIntoArray_items (c # cs) fn acc =
     (let (acc1, c') = mapIntoArray_st c fn acc;
          (acc2, cs') = mapIntoArray_items cs fn acc1
      in (acc2, c' # cs'))"

fun Children_forEach_st ::
    "('s, 'n) ReactNode \<Rightarrow> (('s, 'n) ReactNode \<Rightarrow> 'a \<Rightarrow> 'a \<times> ('s, 'n) ReactNode) \<Rightarrow> 'a
       \<Rightarrow> 'a \<times> ('s, 'n) ReactNode" where
  "Children_forEach_st RNull fn acc = (acc, RNull)"
| "Children_forEach_st RUndefined fn acc = (acc, RUndefined)"
| "Children_forEach_st c fn acc = mapIntoArray_st c fn acc"

lemma mapIntoArray_st_fst:
  "fst (mapIntoArray_st c fn acc) = fold (\<lambda>x a. fst (fn x a)) (mapIntoArray c) acc"
  "fst (mapIntoArray_items cs fn acc) = fold (\<lambda>x a. fst (fn x a)) (concat (map mapIntoArray cs)) acc"
proof (induction c fn acc and cs fn acc rule: mapIntoArray_st_mapIntoArray_items.induct)
  case (11 c cs fn acc)
  obtain acc1 c' where r: "mapIntoArray_st c fn acc = (acc1, c')"
    by (cases "mapIntoArray_st c fn acc")
  from "11.IH"(1) r have 1: "acc1 = fold (\<lambda>x a. fst (fn x a)) (mapIntoArray c) acc"
    by simp
  from "11.IH"(2) [OF refl r [symmetric]]
  have "fst (mapIntoArray_items cs fn acc1)
      = fold (\<lambda>x a. fst (fn x a)) (concat (map mapIntoArray cs)) acc1" .
  then show ?case
    by (simp add: r 1 case_prod_beta)
qed (simp_all add: case_prod_beta)

lemma Children_forEach_st_fst:
  "fst (Children_forEach_st c fn acc) = Children_forEach c (\<lambda>x a. fst (fn x a)) acc"
  by (cases c) (simp_all add: Children_forEach_def mapIntoArray_st_fst del: mapIntoArray_st.simps)

lemma mapIntoArray_st_cong:
  "(\<And>x a. x \<in> set (mapIntoArray c) \<Longrightarrow> fn x a = fn' x a) \<Longrightarrow>
     mapIntoArray_st c fn acc = mapIntoArray_st c fn' acc"
  "(\<And>x a. x \<in> set (concat (map mapIntoArray cs)) \<Longrightarrow> fn x a = fn' x a) \<Longrightarrow>
     mapIntoArray_items cs fn acc = mapIntoArray_items cs fn' acc"
proof (induction c fn acc and cs fn acc rule: mapIntoArray_st_mapIntoArray_items.induct)
  case (11 c cs fn acc)
  have 1: "mapIntoArray_st c fn acc = mapIntoArray_st c fn' acc"
    by (rule "11.IH"(1)) (simp add: "11.prems")
  obtain acc1 c' where r: "mapIntoArray_st c fn acc = (acc1, c')"
    by (cases "mapIntoArray_st c fn acc")
  have 2: "mapIntoArray_items cs fn acc1 = mapIntoArray_items cs fn' acc1"
    by (rule "11.IH"(2) [OF r [symmetric] refl]) (simp add: "11.prems")
  from 1 r have r': "mapIntoArray_st c fn' acc = (acc1, c')"
    by simp
  show ?case
    by (simp add: r r' 2)
qed (simp_all add: case_prod_beta)

lemma Children_forEach_st_cong [fundef_cong]:
  assumes "c = c'" and "acc = acc'"
    and "\<And>x a. x \<in> set (mapChildren c') \<Longrightarrow> fn x a = fn' x a"
  shows "Children_forEach_st c fn acc = Children_forEach_st c' fn' acc'"
proof -
  have "mapIntoArray_st c' fn acc' = mapIntoArray_st c' fn' acc'"
    if "mapChildren c' = mapIntoArray c'"
    by (rule mapIntoArray_st_cong(1)) (use assms(3) that in simp)
  then have "Children_forEach_st c' fn acc' = Children_forEach_st c' fn' acc'"
    by (cases c') (simp_all del: mapIntoArray_st.simps mapIntoArray.simps)
  with assms(1,2) show ?thesis by simp
qed

text \<open>
  \<^verbatim>\<open>styleNodeFromYogaNode\<close> with its effects: the address of the returned object, the
  heap after the call, and the input tree after the call.
\<close>

function styleNodeFromYogaNode_call ::
  "('s, 'n) ReactElement \<Rightarrow> 's heap \<Rightarrow> (addr \<times> 's heap) \<times> ('s, 'n) ReactElement" where
  "styleNodeFromYogaNode_call yogaNode h =
     (let (children, h1) = alloc (ArrayObject []) h;
          (h2, children') =
            Children_forEach_st (props_children yogaNode)
              (\<lambda>child h'.
                 case child of
                   RElement e \<Rightarrow>
                     if etype e = NodeT
                     then (let ((r, h''), e') = styleNodeFromYogaNode_call e h'
                           in (push children r h'', RElement e'))
                     else (h', child)
                 | _ \<Rightarrow> (h', child))
              h1
      in (alloc (StyleNodeObject (props_style yogaNode) children) h2,
          Element (etype yogaNode) (props_style yogaNode) children'))"
  by pat_completeness auto
termination
proof (relation "measure (\<lambda>(e, h). size e)")
  fix yogaNode :: "('s, 'n) ReactElement" and x e
  assume "x \<in> set (mapChildren (props_children yogaNode))" and "x = RElement e"
  then have "size (RElement e) \<le> size (props_children yogaNode)"
    using size_mapChildren by blast
  then show "((e, h'), (yogaNode, h)) \<in> measure (\<lambda>(e, h). size e)" for h h' :: "'s heap"
    by (cases yogaNode) simp
qed simp

declare styleNodeFromYogaNode_call.simps [simp del]

text \<open>
  The object at an address is a style node: it has the node's style, and its
  \<^verbatim>\<open>children\<close> field points to an array whose members are, one for one, the node's
  children.
\<close>

inductive denotes :: "'s heap \<Rightarrow> addr \<Rightarrow> 's StyleNode \<Rightarrow> bool" where
  "\<lbrakk>a < length h; h ! a = StyleNodeObject s arr; arr < length h; h ! arr = ArrayObject as;
    list_all2 (denotes h) as cs\<rbrakk> \<Longrightarrow> denotes h a (StyleNode s cs)"

text \<open>
  An address keeps its meaning in every heap that is at least as long and has the same
  objects from \<^verbatim>\<open>lo\<close> on.
\<close>

definition stable :: "'s heap \<Rightarrow> addr \<Rightarrow> addr \<Rightarrow> 's StyleNode \<Rightarrow> bool" where
  "stable h lo r c =
     (\<forall>g. length h \<le> length g \<and> (\<forall>i. lo \<le> i \<and> i < length h \<longrightarrow> g ! i = h ! i)
          \<longrightarrow> denotes g r c)"

text \<open>The callback of the loop, for the array at \<^verbatim>\<open>arr\<close>, and its effect on the heap.\<close>

definition visitChild ::
  "addr \<Rightarrow> ('s, 'n) ReactNode \<Rightarrow> 's heap \<Rightarrow> 's heap \<times> ('s, 'n) ReactNode" where
  "visitChild arr child h' =
     (case child of
        RElement e \<Rightarrow>
          if etype e = NodeT
          then (let ((r, h''), e') = styleNodeFromYogaNode_call e h'
                in (push arr r h'', RElement e'))
          else (h', child)
      | _ \<Rightarrow> (h', child))"

definition pushChild :: "addr \<Rightarrow> ('s, 'n) ReactNode \<Rightarrow> 's heap \<Rightarrow> 's heap" where
  "pushChild arr child h' = fst (visitChild arr child h')"

text \<open>
  What a call does to the heap: the result is a new address, the objects that were there
  before are as they were, and the result is the flattened node, whatever is done later
  to older objects.
\<close>

definition allocates :: "('s, 'n) ReactElement \<Rightarrow> bool" where
  "allocates e =
     (\<forall>h. case fst (styleNodeFromYogaNode_call e h) of
            (a, h') \<Rightarrow>
              length h \<le> a \<and> a < length h' \<and> take (length h) h' = h \<and>
              stable h' (length h) a (styleNodeFromYogaNode e))"

text \<open>
  A tree can be flattened again and again: none of the iterables that the flattener
  iterates, in the node or in the \<^verbatim>\<open>Node\<close> elements below it, is one that can be
  iterated only once and has items left to yield.
\<close>

fun replayable :: "('s, 'n) ReactElement \<Rightarrow> bool"
  and replayableChildren :: "('s, 'n) ReactNode \<Rightarrow> bool" where
  "replayable (Element t s c) = replayableChildren c"
| "replayableChildren (RElement e) = (if etype e = NodeT then replayable e else True)"
| "replayableChildren (RArray cs) = list_all replayableChildren cs"
| "replayableChildren (RGenerator cs) = (cs = [])"
| "replayableChildren RNull = True"
| "replayableChildren RUndefined = True"
| "replayableChildren (RBoolean b) = True"
| "replayableChildren (RString t) = True"
| "replayableChildren (RNumber n) = True"
| "replayableChildren RPortal = True"

section \<open>The layout wrapper\<close>

text \<open>A thrown JavaScript \<^verbatim>\<open>Error\<close>, with its message.\<close>

datatype error = Error string

text \<open>
  \<^verbatim>\<open>React.Children.only(children)\<close> returns its argument when that is a valid element
  and throws otherwise.
\<close>

definition Children_only :: "('s, 'n) ReactNode \<Rightarrow> error + ('s, 'n) ReactNode" where
  "Children_only c =
     (if isValidElement c then Inr c
      else Inl (Error ''React.Children.only expected to receive a single React element child.''))"

text \<open>\<^verbatim>\<open>config?: {useWebDefaults?: boolean}\<close>; an absent field is \<^verbatim>\<open>undefined\<close>.\<close>

record LayoutConfig =
  useWebDefaults :: "bool option"

text \<open>
  What \<^verbatim>\<open>Layout\<close> returns: \<^verbatim>\<open>null\<close>, or the elements it creates, a \<^verbatim>\<open>Suspense\<close>
  boundary (its fallback, its child) around one \<^verbatim>\<open>LazyYogaViewer\<close> with the props
  \<^verbatim>\<open>rootNode\<close> and \<^verbatim>\<open>useWebDefaults\<close>.
\<close>

datatype 's Rendered =
    Nothing
  | Suspense "'s Rendered" "'s Rendered"
  | LazyYogaViewer "'s StyleNode" "bool option"

definition Layout ::
  "('s, 'n) ReactNode \<Rightarrow> LayoutConfig option \<Rightarrow> error + 's Rendered" where
  "Layout children' config =
     (if Children_count children' \<noteq> 1 then Inr Nothing
      else
        case Children_only children' of
          Inl err \<Rightarrow> Inl err
        | Inr child \<Rightarrow>
            if \<not> isValidElement child \<or> child_type child \<noteq> Some NodeT then Inr Nothing
            else
              (case child of
                 RElement e \<Rightarrow>
                   let styleNode = styleNodeFromYogaNode e
                   in Inr (Suspense Nothing
                        (LazyYogaViewer styleNode (Option.bind config useWebDefaults)))
               | _ \<Rightarrow> Inr Nothing))"

text \<open>The uses of the layout-visualization component in a rendered result, with their props.\<close>

fun viewerCalls :: "'s Rendered \<Rightarrow> ('s StyleNode \<times> bool option) list" where
  "viewerCalls Nothing = []"
| "viewerCalls (Suspense fallback child) = viewerCalls fallback @ viewerCalls child"
| "viewerCalls (LazyYogaViewer rootNode flag) = [(rootNode, flag)]"

section \<open>The flattener on the values of a running snippet\<close>

text \<open>
  The declared type of \<^verbatim>\<open>children\<close> is not checked when a snippet runs. A children value
  can then also be a plain object, given by its keys, or a function or symbol.
\<close>

datatype ('s, 'n) JSValue =
    JNull
  | JUndefined
  | JBoolean bool
  | JString string
  | JNumber 'n
  | JElement "('s, 'n) JSElement"
  | JPortal
  | JIterable "('s, 'n) JSValue list"
  | JFunction
  | JObject "string list"
and ('s, 'n) JSElement =
    JSElement (js_type: element_type) (js_style: 's) (js_children: "('s, 'n) JSValue")

text \<open>
  The error React throws when it meets a plain object among the children; its message
  lists the object's keys.
\<close>

fun joinKeys :: "string list \<Rightarrow> string" where
  "joinKeys [] = []"
| "joinKeys [k] = k"
| "joinKeys (k # ks) = k @ '', '' @ joinKeys ks"

definition invalidChild :: "string list \<Rightarrow> error" where
  "invalidChild keys =
     Error (''Objects are not valid as a React child (found: object with keys {'' @
       joinKeys keys @
       ''}). If you meant to render a collection of children, use an array instead.'')"

text \<open>
  React's traversal with the callback run at each visited child, in order, and with the
  two ways it can stop early: the callback throws, or the traversal meets a plain object.
  A function or symbol is passed over.
\<close>

fun mapIntoArray_js ::
    "('s, 'n) JSValue \<Rightarrow> (('s, 'n) JSValue \<Rightarrow> 'a \<Rightarrow> error + 'a) \<Rightarrow> 'a \<Rightarrow> error + 'a"
  and mapIntoArray_js_items ::
    "('s, 'n) JSValue list \<Rightarrow> (('s, 'n) JSValue \<Rightarrow> 'a \<Rightarrow> error + 'a) \<Rightarrow> 'a \<Rightarrow> error + 'a" where
  "mapIntoArray_js JNull fn acc = fn JNull acc"
| "mapIntoArray_js JUndefined fn acc = fn JNull acc"
| "mapIntoArray_js (JBoolean b) fn acc = fn JNull acc"
| "mapIntoArray_js (JString s) fn acc = fn (JString s) acc"
| "mapIntoArray_js (JNumber n) fn acc = fn (JNumber n) acc"
| "mapIntoArray_js (JElement e) fn acc = fn (JElement e) acc"
| "mapIntoArray_js JPortal fn acc = fn JPortal acc"
| "mapIntoArray_js (JIterable cs) fn acc = mapIntoArray_js_items cs fn acc"
| "mapIntoArray_js JFunction fn acc = Inr acc"
| "mapIntoArray_js (JObject keys) fn acc = Inl (invalidChild keys)"
| "mapIntoArray_js_items [] fn acc = Inr acc"
| "mapIntoArray_js_items (c # cs) fn acc =
     (case mapIntoArray_js c fn acc of
        Inl err \<Rightarrow> Inl err
      | Inr acc1 \<Rightarrow> mapIntoArray_js_items cs fn acc1)"

fun Children_forEach_js ::
    "('s, 'n) JSValue \<Rightarrow> (('s, 'n) JSValue \<Rightarrow> 'a \<Rightarrow> error + 'a) \<Rightarrow> 'a \<Rightarrow> error + 'a" where
  "Children_forEach_js JNull fn acc = Inr acc"
| "Children_forEach_js JUndefined fn acc = Inr acc"
| "Children_forEach_js c fn acc = mapIntoArray_js c fn acc"

text \<open>The children that the traversal visits when nothing is thrown.\<close>

fun reached :: "('s, 'n) JSValue \<Rightarrow> ('s, 'n) JSValue list" where
  "reached JNull = [JNull]"
| "reached JUndefined = [JNull]"
| "reached (JBoolean b) = [JNull]"
| "reached (JString s) = [JString s]"
| "reached (JNumber n) = [JNumber n]"
| "reached (JElement e) = [JElement e]"
| "reached JPortal = [JPortal]"
| "reached (JIterable cs) = concat (map reached cs)"
| "reached JFunction = []"
| "reached (JObject keys) = []"

lemma size_reached: "x \<in> set (reached c) \<Longrightarrow> size x \<le> size c"
proof (induction c arbitrary: x rule: reached.induct)
  case (8 cs)
  then obtain c where c: "c \<in> set cs" and x: "x \<in> set (reached c)"
    by auto
  from "8.IH" [OF c x] have "size x \<le> size c" .
  moreover from c have "size c \<le> size_list size cs"
    by (simp add: size_list_estimation')
  ultimately show ?case by simp
qed simp_all

lemma mapIntoArray_js_cong:
  "(\<And>x a. x \<in> set (reached c) \<Longrightarrow> fn x a = fn' x a) \<Longrightarrow>
     mapIntoArray_js c fn acc = mapIntoArray_js c fn' acc"
  "(\<And>x a. x \<in> set (concat (map reached cs)) \<Longrightarrow> fn x a = fn' x a) \<Longrightarrow>
     mapIntoArray_js_items cs fn acc = mapIntoArray_js_items cs fn' acc"
proof (induction c fn acc and cs fn acc rule: mapIntoArray_js_mapIntoArray_js_items.induct)
  case (12 c cs fn acc)
  have 1: "mapIntoArray_js c fn acc = mapIntoArray_js c fn' acc"
    by (rule "12.IH"(1)) (simp add: "12.prems")
  show ?case
  proof (cases "mapIntoArray_js c fn acc")
    case (Inl err)
    moreover from 1 Inl have "mapIntoArray_js c fn' acc = Inl err"
      by simp
    ultimately show ?thesis by simp
  next
    case (Inr acc1)
    have 2: "mapIntoArray_js_items cs fn acc1 = mapIntoArray_js_items cs fn' acc1"
      by (rule "12.IH"(2) [OF Inr]) (simp add: "12.prems")
    from 1 Inr have "mapIntoArray_js c fn' acc = Inr acc1"
      by simp
    with Inr 2 show ?thesis by simp
  qed
qed simp_all

lemma Children_forEach_js_cong [fundef_cong]:
  assumes "c = c'" and "acc = acc'"
    and "\<And>x a. x \<in> set (reached c') \<Longrightarrow> fn x a = fn' x a"
  shows "Children_forEach_js c fn acc = Children_forEach_js c' fn' acc'"
proof -
  have "mapIntoArray_js c' fn acc' = mapIntoArray_js c' fn' acc'"
    by (rule mapIntoArray_js_cong(1)) (use assms(3) in simp)
  then have "Children_forEach_js c' fn acc' = Children_forEach_js c' fn' acc'"
    by (cases c') (simp_all del: mapIntoArray_js.simps)
  with assms(1,2) show ?thesis by simp
qed

text \<open>\<^verbatim>\<open>styleNodeFromYogaNode\<close> on such values: the flattened node, or the error thrown.\<close>

function styleNodeFromYogaNode_js :: "('s, 'n) JSElement \<Rightarrow> error + 's StyleNode" where
  "styleNodeFromYogaNode_js yogaNode =
     (case
        Children_forEach_js (js_children yogaNode)
          (\<lambda>child children.
             case child of
               JElement e \<Rightarrow>
                 if js_type e = NodeT
                 then (case styleNodeFromYogaNode_js e of
                         Inl err \<Rightarrow> Inl err
                       | Inr styleNode \<Rightarrow> Inr (children @ [styleNode]))
                 else Inr children
             | _ \<Rightarrow> Inr children)
          []
      of
        Inl err \<Rightarrow> Inl err
      | Inr children' \<Rightarrow> Inr (StyleNode (js_style yogaNode) children'))"
  by pat_completeness auto
termination
proof (relation "measure size")
  fix yogaNode :: "('s, 'n) JSElement" and x e
  assume "x \<in> set (reached (js_children yogaNode))" and "x = JElement e"
  then have "size (JElement e) \<le> size (js_children yogaNode)"
    using size_reached by blast
  then show "(e, yogaNode) \<in> measure size"
    by (cases yogaNode) simp
qed simp

declare styleNodeFromYogaNode_js.simps [simp del]


section \<open>The default snippet and other example trees\<close>

text \<open>
  Modelled from the spec: \<^verbatim>\<open>FlexStyle\<close> (./FlexStyle is not among the sources), an
  object of layout properties with numeric or keyword values, here the list of its
  entries in the order the object literal writes them.
\<close>

datatype style_value = Num int | Keyword string

type_synonym FlexStyle = "(string \<times> style_value) list"

text \<open>
  The root \<^verbatim>\<open>Node\<close> element that the JSX of \<^verbatim>\<open>defaultCode\<close> denotes, the single child
  of its \<^verbatim>\<open>Layout\<close>: a lone JSX child is the value of \<^verbatim>\<open>props.children\<close> itself, and
  a self-closing tag has no \<^verbatim>\<open>children\<close> prop.
\<close>

definition defaultCode_root :: "(FlexStyle, int) ReactElement" where
  "defaultCode_root =
     Element NodeT [(''width'', Num 350), (''height'', Num 350), (''padding'', Num 20)]
       (RElement (Element NodeT [(''flex'', Num 1)] RUndefined))"

text \<open>
  The heap after flattening the default snippet's root in an empty heap, and the objects
  that a second call adds.
\<close>

definition example_heap :: "FlexStyle heap" where
  "example_heap =
     [ArrayObject [2],
      ArrayObject [],
      StyleNodeObject [(''flex'', Num 1)] 1,
      StyleNodeObject [(''width'', Num 350), (''height'', Num 350), (''padding'', Num 20)] 0]"

definition example_heap' :: "FlexStyle heap" where
  "example_heap' =
     [ArrayObject [6],
      ArrayObject [],
      StyleNodeObject [(''flex'', Num 1)] 5,
      StyleNodeObject [(''width'', Num 350), (''height'', Num 350), (''padding'', Num 20)] 4]"

text \<open>
  A node whose children are a generator object that has yet to yield one \<^verbatim>\<open>Node\<close>
  element, the same node when the generator is exhausted, and the objects that a first
  and a second call create.
\<close>

definition generator_root :: "(FlexStyle, int) ReactElement" where
  "generator_root =
     Element NodeT [(''width'', Num 350)]
       (RGenerator [RElement (Element NodeT [(''flex'', Num 1)] RUndefined)])"

definition exhausted_root :: "(FlexStyle, int) ReactElement" where
  "exhausted_root = Element NodeT [(''width'', Num 350)] (RGenerator [])"

definition generator_heap :: "FlexStyle heap" where
  "generator_heap =
     [ArrayObject [2],
      ArrayObject [],
      StyleNodeObject [(''flex'', Num 1)] 1,
      StyleNodeObject [(''width'', Num 350)] 0]"

definition generator_heap' :: "FlexStyle heap" where
  "generator_heap' = [ArrayObject [], StyleNodeObject [(''width'', Num 350)] 4]"

section \<open>The rendered document\<close>

text \<open>
  The part of the DOM that the playground reads: an element with its class list, the
  three measurements \<^verbatim>\<open>offsetWidth\<close>, \<^verbatim>\<open>clientWidth\<close> and \<^verbatim>\<open>clientHeight\<close>, and its
  child nodes, which are elements or text.
\<close>

datatype HTMLElement =
    HTMLElement (classList: "string list") (offsetWidth: int) (clientWidth: int)
      (clientHeight: int) (childNodes: "ChildNode list")
and ChildNode = ElementChild HTMLElement | TextChild string

text \<open>Of the selectors only the class selector \<^verbatim>\<open>.name\<close> is used.\<close>

fun matches :: "HTMLElement \<Rightarrow> string \<Rightarrow> bool" where
  "matches el (c # name) = (c = CHR ''.'' \<and> name \<in> set (classList el))"
| "matches el [] = False"

text \<open>
  \<^verbatim>\<open>querySelector\<close>: the first descendant element, in document order, that matches;
  \<^verbatim>\<open>null\<close> when there is none. The element itself is not a candidate.
\<close>

fun queryNodes :: "ChildNode list \<Rightarrow> string \<Rightarrow> HTMLElement option" where
  "queryNodes [] sel = None"
| "queryNodes (TextChild t # ns) sel = queryNodes ns sel"
| "queryNodes (ElementChild (HTMLElement cl ow cw ch kids) # ns) sel =
     (if matches (HTMLElement cl ow cw ch kids) sel then Some (HTMLElement cl ow cw ch kids)
      else case queryNodes kids sel of
             Some found \<Rightarrow> Some found
           | None \<Rightarrow> queryNodes ns sel)"

definition querySelector :: "HTMLElement \<Rightarrow> string \<Rightarrow> HTMLElement option" where
  "querySelector el sel = queryNodes (childNodes el) sel"

text \<open>
  \<^verbatim>\<open>textContent\<close> of an element: the text of its descendants, concatenated in document
  order. It is a string for every element, the empty string when there is no text.
\<close>

fun textContent :: "HTMLElement \<Rightarrow> string"
  and nodeText :: "ChildNode \<Rightarrow> string" where
  "textContent (HTMLElement cl ow cw ch kids) = concat (map nodeText kids)"
| "nodeText (ElementChild el) = textContent el"
| "nodeText (TextChild t) = t"

text \<open>
  \<^verbatim>\<open>nullthrows(x)\<close> returns \<^verbatim>\<open>x\<close> unless it is \<^verbatim>\<open>null\<close> or \<^verbatim>\<open>undefined\<close>, and then
  throws. An optional chain that stops yields \<^verbatim>\<open>undefined\<close>, which is \<^term>\<open>None\<close>
  here.
\<close>

definition nullthrows :: "'a option \<Rightarrow> error + 'a" where
  "nullthrows x = (case x of None \<Rightarrow> Inl (Error ''Got unexpected undefined'') | Some v \<Rightarrow> Inr v)"

text \<open>
  The function passed to the toolbar as \<^verbatim>\<open>getCode\<close>; its argument is the value of
  \<^verbatim>\<open>playgroundRef.current\<close> when it is called.
\<close>

definition getCode :: "HTMLElement option \<Rightarrow> error + string" where
  "getCode playgroundRef_current =
     nullthrows
       (Option.bind
          (Option.bind playgroundRef_current (\<lambda>root. querySelector root ''.prism-code''))
          (\<lambda>codeElem. Some (textContent codeElem)))"

text \<open>
  The editor's code region in the render tree: the element of class \<^verbatim>\<open>prism-code\<close>
  below the playground's wrapper, when the wrapper is mounted and has one.
\<close>

definition editorRegion :: "HTMLElement option \<Rightarrow> HTMLElement option" where
  "editorRegion playgroundRef_current =
     (case playgroundRef_current of
        None \<Rightarrow> None
      | Some root \<Rightarrow> querySelector root ''.prism-code'')"

section \<open>The playground component\<close>

text \<open>
  The constant \<^verbatim>\<open>defaultCode\<close>: the template literal after \<^verbatim>\<open>trim()\<close>, five lines
  separated by line feeds.
\<close>

definition defaultCode :: string where
  "defaultCode =
     ''<Layout config={{useWebDefaults: false}}>'' @ [CHR 0x0A] @
     ''  <Node style={{width: 350, height: 350, padding: 20}}>'' @ [CHR 0x0A] @
     ''    <Node style={{flex: 1}} />'' @ [CHR 0x0A] @
     ''  </Node>'' @ [CHR 0x0A] @
     ''</Layout>''"

text \<open>
  The props \<^verbatim>\<open>code\<close> and \<^verbatim>\<open>autoFocus\<close>, each optional (\<^verbatim>\<open>height\<close> only sets a CSS
  variable and is left out).
\<close>

record Props =
  code :: "string option"
  autoFocus :: "bool option"

text \<open>
  What a commit finds in the browser: the elements the two refs point to and whether
  \<^verbatim>\<open>window.getSelection()\<close> returns a selection.
\<close>

record Env =
  playgroundRef :: "HTMLElement option"
  editorScrollRef :: "HTMLElement option"
  hasSelection :: bool

text \<open>
  One mounted playground: the props of its latest render, its three state hooks, the
  dependencies \<^verbatim>\<open>[isLoaded, autoFocus]\<close> with which the effect of lines 66 to 77 last
  ran (none before the first commit), and the elements on which the caret has been
  placed by \<^verbatim>\<open>selectAllChildren\<close> and \<^verbatim>\<open>collapseToStart\<close>, oldest first.
\<close>

record Playground =
  props :: Props
  isLoaded :: bool
  liveCode :: string
  scrollbarWidth :: int
  effectDeps :: "(bool \<times> bool option) option"
  carets :: "HTMLElement list"

text \<open>The state hooks at mount: \<^verbatim>\<open>false\<close>, \<^verbatim>\<open>code ?? defaultCode\<close> and \<^verbatim>\<open>0\<close>.\<close>

definition initial :: "Props \<Rightarrow> Playground" where
  "initial p =
     \<lparr>props = p,
      isLoaded = False,
      liveCode = (case code p of None \<Rightarrow> defaultCode | Some c \<Rightarrow> c),
      scrollbarWidth = 0,
      effectDeps = None,
      carets = []\<rparr>"

text \<open>The body of the layout effect, which has no dependency list and runs at every commit.\<close>

definition layoutEffect :: "Env \<Rightarrow> Playground \<Rightarrow> Playground" where
  "layoutEffect env st =
     (case editorScrollRef env of
        None \<Rightarrow> st
      | Some el \<Rightarrow> st\<lparr>scrollbarWidth := offsetWidth el - clientWidth el\<rparr>)"

text \<open>The body of the effect of lines 66 to 77.\<close>

definition focusBody :: "Env \<Rightarrow> Playground \<Rightarrow> Playground" where
  "focusBody env st =
     (if isLoaded st \<and> autoFocus (props st) = Some True then
        let codeElem = Option.bind (playgroundRef env) (\<lambda>root. querySelector root ''.prism-code'')
        in case codeElem of
             None \<Rightarrow> st
           | Some el \<Rightarrow>
               if clientHeight el \<noteq> 0 \<and> hasSelection env
               then st\<lparr>carets := carets st @ [el]\<rparr>
               else st
      else st)"

text \<open>
  An effect with a dependency list runs at the first commit and at every commit where
  a dependency differs from its value at the previous commit.
\<close>

definition focusEffect :: "Env \<Rightarrow> Playground \<Rightarrow> Playground" where
  "focusEffect env st =
     (let deps = (isLoaded st, autoFocus (props st))
      in if effectDeps st = Some deps then st
         else (focusBody env st)\<lparr>effectDeps := Some deps\<rparr>)"

definition commit :: "Env \<Rightarrow> Playground \<Rightarrow> Playground" where
  "commit env st = focusEffect env (layoutEffect env st)"

definition mount :: "Props \<Rightarrow> Env \<Rightarrow> Playground" where
  "mount p env = commit env (initial p)"

text \<open>
  What happens to a mounted playground: it renders again, with whatever props its parent
  passes; the preview wrapper mounts and its effect calls \<^verbatim>\<open>setIsLoaded(true)\<close>; the
  editor calls \<^verbatim>\<open>onChange\<close>, which is \<^verbatim>\<open>setLiveCode\<close>. A state setter that changes
  nothing causes no commit.
\<close>

datatype Event =
    Render Props Env
  | PreviewMounted Env
  | EditorChange string Env

fun step :: "Event \<Rightarrow> Playground \<Rightarrow> Playground" where
  "step (Render p env) st = commit env (st\<lparr>props := p\<rparr>)"
| "step (PreviewMounted env) st =
     (if isLoaded st then st else commit env (st\<lparr>isLoaded := True\<rparr>))"
| "step (EditorChange text env) st =
     (if liveCode st = text then st else commit env (st\<lparr>liveCode := text\<rparr>))"

definition run :: "Playground \<Rightarrow> Event list \<Rightarrow> Playground" where
  "run st evs = fold step evs st"

text \<open>A JavaScript number that is an integer, as a string: decimal digits after a sign.\<close>

function natString :: "nat \<Rightarrow> string" where
  "natString n =
     (if n < 10 then [''0123456789'' ! n]
      else natString (n div 10) @ [''0123456789'' ! (n mod 10)])"
  by pat_completeness auto
termination
  by (relation "measure id") auto

declare natString.simps [simp del]

definition toString :: "int \<Rightarrow> string" where
  "toString i = (if i < 0 then CHR ''-'' # natString (nat (- i)) else natString (nat i))"

text \<open>
  Of what the component renders: the \<^verbatim>\<open>code\<close> given to \<^verbatim>\<open>LiveProvider\<close> and the
  \<^verbatim>\<open>paddingRight\<close> given to \<^verbatim>\<open>EditorToolbar\<close>.
\<close>

record View =
  LiveProvider_code :: string
  EditorToolbar_paddingRight :: string

definition render :: "Playground \<Rightarrow> View" where
  "render st =
     \<lparr>LiveProvider_code = liveCode st,
      EditorToolbar_paddingRight = toString (scrollbarWidth st) @ ''px''\<rparr>"

subsection \<open>Runs of the component\<close>

text \<open>The text of the last \<^verbatim>\<open>onChange\<close> in a run, or the given text when there is none.\<close>

fun latestEdit :: "string \<Rightarrow> Event list \<Rightarrow> string" where
  "latestEdit t [] = t"
| "latestEdit t (EditorChange text env # evs) = latestEdit text evs"
| "latestEdit t (ev # evs) = latestEdit t evs"

text \<open>The browser state that an event's commit finds.\<close>

fun envOf :: "Event \<Rightarrow> Env" where
  "envOf (Render p env) = env"
| "envOf (PreviewMounted env) = env"
| "envOf (EditorChange text env) = env"

text \<open>The first mounting of the preview wrapper in a run, with the browser state then.\<close>

fun firstPreviewMounted :: "Event list \<Rightarrow> Env option" where
  "firstPreviewMounted [] = None"
| "firstPreviewMounted (PreviewMounted env # evs) = Some env"
| "firstPreviewMounted (ev # evs) = firstPreviewMounted evs"

text \<open>
  Where the caret goes when the effect's body runs with both flags set: on the editor's
  code region if it exists with a non-zero \<^verbatim>\<open>clientHeight\<close> and there is a selection
  object, and nowhere otherwise.
\<close>

definition focusTarget :: "Env \<Rightarrow> HTMLElement list" where
  "focusTarget env =
     (case editorRegion (playgroundRef env) of
        None \<Rightarrow> []
      | Some el \<Rightarrow> if clientHeight el \<noteq> 0 \<and> hasSelection env then [el] else [])"

text \<open>
  The browser reports for the scroll container an outer width that is not smaller than
  its inner width: \<^verbatim>\<open>offsetWidth\<close> spans the border box, \<^verbatim>\<open>clientWidth\<close> the padding
  box without the scrollbar.
\<close>

definition layoutSane :: "Env \<Rightarrow> bool" where
  "layoutSane env =
     (case editorScrollRef env of None \<Rightarrow> True | Some el \<Rightarrow> clientWidth el \<le> offsetWidth el)"

text \<open>An event leaves the auto-focus flag requested: a render passes \<^verbatim>\<open>autoFocus = true\<close>.\<close>

fun requests :: "Event \<Rightarrow> bool" where
  "requests (Render p env) = (autoFocus p = Some True)"
| "requests _ = True"

text \<open>
  After a commit with the flag requested, the effect's stored dependencies are the
  current ones.
\<close>

definition settled :: "Playground \<Rightarrow> bool" where
  "settled st = (autoFocus (props st) = Some True \<and> effectDeps st = Some (isLoaded st, Some True))"

text \<open>A browser state for the examples: the wrapper, the scroll container, the editor.\<close>

definition example_editor :: HTMLElement where
  "example_editor =
     HTMLElement [''prism-code'', ''language-jsx''] 385 385 120
       [ElementChild (HTMLElement [''token-line''] 385 385 20 [TextChild ''<Layout />''])]"

definition example_scroll :: HTMLElement where
  "example_scroll =
     HTMLElement [''editorScroll''] 415 400 300
       [ElementChild (HTMLElement [''editorToolbar''] 400 400 30 [TextChild ''Copy'']),
        ElementChild example_editor]"

definition example_env :: Env where
  "example_env =
     \<lparr>playgroundRef = Some (HTMLElement [''wrapper''] 900 900 300 [ElementChild example_scroll]),
      editorScrollRef = Some example_scroll,
      hasSelection = True\<rparr>"

text \<open>The same while the playground is not displayed: every box is empty.\<close>

definition hidden_editor :: HTMLElement where
  "hidden_editor = HTMLElement [''prism-code'', ''language-jsx''] 0 0 0 [TextChild ''<Layout />'']"

definition hidden_env :: Env where
  "hidden_env =
     \<lparr>playgroundRef =
        Some (HTMLElement [''wrapper''] 0 0 0
          [ElementChild (HTMLElement [''editorScroll''] 0 0 0 [ElementChild hidden_editor])]),
      editorScrollRef = Some (HTMLElement [''editorScroll''] 0 0 0 [ElementChild hidden_editor]),
      hasSelection = True\<rparr>"

text \<open>A scroll container whose inner width is reported larger than its outer width.\<close>

definition inverted_env :: Env where
  "inverted_env =
     \<lparr>playgroundRef = None,
      editorScrollRef = Some (HTMLElement [''editorScroll''] 400 415 300 []),
      hasSelection = True\<rparr>"

section \<open>Properties of the tree flattener\<close>

text \<open>
  C1. The flattened node carries the style of the declarative node unchanged, and its
  children are the flattened recognised children of the input, one for one and in the
  order in which the input lists them; a child that is not a \<^verbatim>\<open>Node\<close> element
  contributes nothing. So the output has as many children as the input has recognised
  ones.
\<close>

theorem styleNodeFromYogaNode_projection:
  "style (styleNodeFromYogaNode yogaNode) = props_style yogaNode \<and>
   children (styleNodeFromYogaNode yogaNode)
     = map styleNodeFromYogaNode (recognizedChildren (props_children yogaNode)) \<and>
   length (children (styleNodeFromYogaNode yogaNode))
     = length (filter isRecognized (mapChildren (props_children yogaNode)))"
  by (simp add: styleNodeFromYogaNode_unfold recognizedChildren_def
        length_map_filter_asNode)

text \<open>
  C4. The root of the default snippet, with style \<^verbatim>\<open>{width: 350, height: 350, padding: 20}\<close>
  and one \<^verbatim>\<open>Node\<close> child of style \<^verbatim>\<open>{flex: 1}\<close> without children, flattens to
  \<^verbatim>\<open>{style: {width: 350, height: 350, padding: 20}, children: [{style: {flex: 1}, children: []}]}\<close>.
\<close>

theorem styleNodeFromYogaNode_defaultCode:
  "styleNodeFromYogaNode defaultCode_root =
     StyleNode [(''width'', Num 350), (''height'', Num 350), (''padding'', Num 20)]
       [StyleNode [(''flex'', Num 1)] []]"
  by (simp add: defaultCode_root_def styleNodeFromYogaNode_unfold recognizedChildren_def
        List.map_filter_simps)

subsection \<open>Values of the declared type never make the flattener throw\<close>




text \<open>
  A plain object among the children makes the traversal, and with it the flattener,
  throw.
\<close>

lemma styleNodeFromYogaNode_js_object:
  "styleNodeFromYogaNode_js (JSElement NodeT s (JObject [''width'']))
     = Inl (Error (''Objects are not valid as a React child (found: object with keys {width}). '' @
         ''If you meant to render a collection of children, use an array instead.''))"
  by (simp add: styleNodeFromYogaNode_js.simps invalidChild_def)


subsection \<open>Allocation\<close>

lemma call_unfold:
  "styleNodeFromYogaNode_call yogaNode h =
     (let (h2, children') =
            Children_forEach_st (props_children yogaNode) (visitChild (length h))
              (h @ [ArrayObject []])
      in (alloc (StyleNodeObject (props_style yogaNode) (length h)) h2,
          Element (etype yogaNode) (props_style yogaNode) children'))"
  by (subst styleNodeFromYogaNode_call.simps)
     (simp add: alloc_def visitChild_def [abs_def])

lemma heap_unfold:
  "fst (styleNodeFromYogaNode_call yogaNode h) =
     alloc (StyleNodeObject (props_style yogaNode) (length h))
       (fold (pushChild (length h)) (mapChildren (props_children yogaNode))
          (h @ [ArrayObject []]))"
  by (simp add: call_unfold case_prod_beta Children_forEach_st_fst Children_forEach_def
        pushChild_def [abs_def])

lemma pushChild_eq:
  "pushChild arr child h' =
     (case child of
        RElement e \<Rightarrow>
          if etype e = NodeT
          then (let (r, h'') = fst (styleNodeFromYogaNode_call e h') in push arr r h'')
          else h'
      | _ \<Rightarrow> h')"
  by (simp add: pushChild_def visitChild_def case_prod_beta split: ReactNode.splits)

lemma stable_lower: "stable h lo r c \<Longrightarrow> lo' \<le> lo \<Longrightarrow> stable h lo' r c"
  by (simp add: stable_def)

lemma stable_extend:
  assumes "stable h lo r c" and "length h \<le> length h'"
    and "\<And>i. lo \<le> i \<Longrightarrow> i < length h \<Longrightarrow> h' ! i = h ! i"
  shows "stable h' lo r c"
  unfolding stable_def
proof (intro allI impI)
  fix g
  assume g: "length h' \<le> length g \<and> (\<forall>i. lo \<le> i \<and> i < length h' \<longrightarrow> g ! i = h' ! i)"
  have "length h \<le> length g"
    using g assms(2) by simp
  moreover have "g ! i = h ! i" if "lo \<le> i" "i < length h" for i
    using g assms(2) assms(3) [OF that] that by simp
  ultimately show "denotes g r c"
    using assms(1) by (simp add: stable_def)
qed

lemma pushChild_step:
  assumes good: "\<And>e. child = RElement e \<Longrightarrow> etype e = NodeT \<Longrightarrow> allocates e"
    and arr: "arr < length h" "h ! arr = ArrayObject as"
    and old: "list_all2 (stable h (Suc arr)) as cs"
  shows "\<exists>as'. length h \<le> length (pushChild arr child h) \<and>
           (\<forall>i<length h. i \<noteq> arr \<longrightarrow> pushChild arr child h ! i = h ! i) \<and>
           pushChild arr child h ! arr = ArrayObject as' \<and>
           list_all2 (stable (pushChild arr child h) (Suc arr)) as'
             (cs @ map styleNodeFromYogaNode (List.map_filter asNode [child]))"
proof (cases "asNode child")
  case None
  then have "pushChild arr child h = h"
    by (cases child) (simp_all add: pushChild_eq split: if_splits)
  with None arr old show ?thesis
    by (simp add: List.map_filter_simps)
next
  case (Some e)
  then have child: "child = RElement e" and node: "etype e = NodeT"
    by (cases child; simp split: if_splits)+
  obtain r h'' where call: "fst (styleNodeFromYogaNode_call e h) = (r, h'')"
    by (cases "fst (styleNodeFromYogaNode_call e h)")
  from good [OF child node] call
  have r: "length h \<le> r" "r < length h''" and frame: "take (length h) h'' = h"
    and st: "stable h'' (length h) r (styleNodeFromYogaNode e)"
    by (auto simp: allocates_def split: prod.splits)
  have len: "length h \<le> length h''"
    using r by simp
  have same: "h'' ! i = h ! i" if "i < length h" for i
    using frame that by (metis nth_take)
  let ?h3 = "h''[arr := ArrayObject (as @ [r])]"
  have p: "pushChild arr child h = ?h3"
    using child node call arr len same [of arr]
    by (simp add: pushChild_eq push_def)
  have "stable ?h3 (Suc arr) r (styleNodeFromYogaNode e)"
  proof (rule stable_extend)
    show "stable h'' (Suc arr) r (styleNodeFromYogaNode e)"
      using st by (rule stable_lower) (use arr(1) in simp)
  qed simp_all
  moreover have "list_all2 (stable ?h3 (Suc arr)) as cs"
  proof (rule list_all2_mono [OF old])
    fix x c
    assume "stable h (Suc arr) x c"
    then show "stable ?h3 (Suc arr) x c"
      by (rule stable_extend) (use len same in simp_all)
  qed
  ultimately have "list_all2 (stable ?h3 (Suc arr)) (as @ [r]) (cs @ [styleNodeFromYogaNode e])"
    by (simp add: list_all2_appendI)
  moreover have "?h3 ! arr = ArrayObject (as @ [r])"
    using arr(1) len by simp
  moreover have "\<forall>i<length h. i \<noteq> arr \<longrightarrow> ?h3 ! i = h ! i"
    using same by simp
  ultimately show ?thesis
    using len Some by (simp add: p List.map_filter_simps)
qed

lemma forEach_pushChild:
  assumes "\<And>e. RElement e \<in> set xs \<Longrightarrow> etype e = NodeT \<Longrightarrow> allocates e"
    and "arr < length h" and "h ! arr = ArrayObject as"
    and "list_all2 (stable h (Suc arr)) as cs"
  shows "\<exists>as'. length h \<le> length (fold (pushChild arr) xs h) \<and>
           (\<forall>i<length h. i \<noteq> arr \<longrightarrow> fold (pushChild arr) xs h ! i = h ! i) \<and>
           fold (pushChild arr) xs h ! arr = ArrayObject as' \<and>
           list_all2 (stable (fold (pushChild arr) xs h) (Suc arr)) as'
             (cs @ map styleNodeFromYogaNode (List.map_filter asNode xs))"
  using assms
proof (induction xs arbitrary: h as cs)
  case Nil
  then show ?case by (simp add: List.map_filter_simps)
next
  case (Cons x xs)
  let ?h = "pushChild arr x h"
  from pushChild_step [of x arr h as cs] Cons.prems
  obtain as1 where 1: "length h \<le> length ?h"
    "\<forall>i<length h. i \<noteq> arr \<longrightarrow> ?h ! i = h ! i" "?h ! arr = ArrayObject as1"
    "list_all2 (stable ?h (Suc arr)) as1
       (cs @ map styleNodeFromYogaNode (List.map_filter asNode [x]))"
    by auto
  have arr: "arr < length ?h"
    using 1(1) Cons.prems(2) by simp
  from Cons.IH [OF _ arr 1(3) 1(4)] Cons.prems(1)
  obtain as2 where 2: "length ?h \<le> length (fold (pushChild arr) xs ?h)"
    "\<forall>i<length ?h. i \<noteq> arr \<longrightarrow> fold (pushChild arr) xs ?h ! i = ?h ! i"
    "fold (pushChild arr) xs ?h ! arr = ArrayObject as2"
    "list_all2 (stable (fold (pushChild arr) xs ?h) (Suc arr)) as2
       ((cs @ map styleNodeFromYogaNode (List.map_filter asNode [x]))
          @ map styleNodeFromYogaNode (List.map_filter asNode xs))"
    by auto
  have "List.map_filter asNode [x] @ List.map_filter asNode xs = List.map_filter asNode (x # xs)"
    by (simp add: List.map_filter_simps split: option.splits)
  then have m: "map styleNodeFromYogaNode (List.map_filter asNode [x])
      @ map styleNodeFromYogaNode (List.map_filter asNode xs)
      = map styleNodeFromYogaNode (List.map_filter asNode (x # xs))"
    by (metis map_append)
  have k: "list_all2 (stable (fold (pushChild arr) xs ?h) (Suc arr)) as2
       (cs @ map styleNodeFromYogaNode (List.map_filter asNode (x # xs)))"
    using 2(4) by (simp only: append_assoc m)
  have f: "fold (pushChild arr) (x # xs) h = fold (pushChild arr) xs ?h"
    by simp
  show ?case
    unfolding f
  proof (intro exI [of _ as2] conjI allI impI)
    show "length h \<le> length (fold (pushChild arr) xs ?h)"
      using 1(1) 2(1) by (rule order_trans)
    show "fold (pushChild arr) xs ?h ! i = h ! i" if "i < length h" "i \<noteq> arr" for i
      using that 1(1,2) 2(2) by simp
    show "fold (pushChild arr) xs ?h ! arr = ArrayObject as2"
      by (rule 2(3))
    show "list_all2 (stable (fold (pushChild arr) xs ?h) (Suc arr)) as2
       (cs @ map styleNodeFromYogaNode (List.map_filter asNode (x # xs)))"
      by (rule k)
  qed
qed

lemma allocates_all: "allocates (yogaNode :: ('s, 'n) ReactElement)"
proof (induction yogaNode rule: styleNodeFromYogaNode.induct)
  case (1 yogaNode)
  show ?case
    unfolding allocates_def
  proof
    fix h :: "'s heap"
    let ?arr = "length h"
    let ?h1 = "h @ [ArrayObject []]"
    let ?xs = "mapChildren (props_children yogaNode)"
    let ?h2 = "fold (pushChild ?arr) ?xs ?h1"
    let ?cs = "map styleNodeFromYogaNode (List.map_filter asNode ?xs)"
    let ?obj = "StyleNodeObject (props_style yogaNode) ?arr"
    have "\<exists>as'. length ?h1 \<le> length ?h2 \<and>
           (\<forall>i<length ?h1. i \<noteq> ?arr \<longrightarrow> ?h2 ! i = ?h1 ! i) \<and>
           ?h2 ! ?arr = ArrayObject as' \<and>
           list_all2 (stable ?h2 (Suc ?arr)) as' ([] @ ?cs)"
      by (rule forEach_pushChild) (use "1.IH" in simp_all)
    then obtain as' where len: "length ?h1 \<le> length ?h2"
      and same: "\<forall>i<length ?h1. i \<noteq> ?arr \<longrightarrow> ?h2 ! i = ?h1 ! i"
      and arr: "?h2 ! ?arr = ArrayObject as'"
      and kids: "list_all2 (stable ?h2 (Suc ?arr)) as' ?cs"
      by auto
    have res: "fst (styleNodeFromYogaNode_call yogaNode h) = (length ?h2, ?h2 @ [?obj])"
      by (simp add: heap_unfold alloc_def)
    have frame: "take (length h) (?h2 @ [?obj]) = h"
    proof (rule nth_equalityI)
      show "length (take (length h) (?h2 @ [?obj])) = length h"
        using len by simp
      fix i
      assume "i < length (take (length h) (?h2 @ [?obj]))"
      then have i: "i < length h"
        by simp
      then have "?h2 ! i = ?h1 ! i"
        using same by simp
      then show "take (length h) (?h2 @ [?obj]) ! i = h ! i"
        using i len by (simp add: nth_append)
    qed
    have "stable (?h2 @ [?obj]) (length h) (length ?h2) (styleNodeFromYogaNode yogaNode)"
      unfolding stable_def
    proof (intro allI impI)
      fix g
      assume g: "length (?h2 @ [?obj]) \<le> length g \<and>
        (\<forall>i. length h \<le> i \<and> i < length (?h2 @ [?obj]) \<longrightarrow> g ! i = (?h2 @ [?obj]) ! i)"
      have a: "length ?h2 < length g"
        using g by simp
      have obj: "g ! length ?h2 = ?obj"
        using g len by simp
      have garr: "g ! ?arr = ArrayObject as'"
        using g len arr by (simp add: nth_append)
      have "list_all2 (denotes g) as' ?cs"
      proof (rule list_all2_mono [OF kids])
        fix r c
        assume "stable ?h2 (Suc ?arr) r c"
        moreover have "g ! i = ?h2 ! i" if "Suc ?arr \<le> i" "i < length ?h2" for i
          using g that by (simp add: nth_append)
        ultimately show "denotes g r c"
          using a by (simp add: stable_def)
      qed
      with a obj garr len
      have "denotes g (length ?h2) (StyleNode (props_style yogaNode) ?cs)"
        by (intro denotes.intros) simp_all
      then show "denotes g (length ?h2) (styleNodeFromYogaNode yogaNode)"
        by (simp add: styleNodeFromYogaNode_unfold recognizedChildren_def)
    qed
    with frame len show "case fst (styleNodeFromYogaNode_call yogaNode h) of
        (a, h') \<Rightarrow> length h \<le> a \<and> a < length h' \<and> take (length h) h' = h \<and>
          stable h' (length h) a (styleNodeFromYogaNode yogaNode)"
      by (simp add: res)
  qed
qed

lemma denotes_unique: "denotes h a x \<Longrightarrow> denotes h a y \<Longrightarrow> x = y"
proof (induction arbitrary: y rule: denotes.induct)
  case (1 a h s arr as cs)
  from "1.prems" "1.hyps" obtain cs' where y: "y = StyleNode s cs'"
    and cs': "list_all2 (denotes h) as cs'"
    by (auto elim: denotes.cases)
  have "cs = cs'"
    using "1.IH" cs'
  proof (induction as cs arbitrary: cs' rule: list_all2_induct)
    case Nil
    then show ?case by simp
  next
    case (Cons a as c cs)
    then show ?case by (cases cs') auto
  qed
  with y show ?case by simp
qed

lemma denotes_result:
  assumes "fst (styleNodeFromYogaNode_call yogaNode h) = (a, h')"
    and "length h' \<le> length g" and "take (length h') g = h'"
  shows "denotes g a sn \<longleftrightarrow> sn = styleNodeFromYogaNode yogaNode"
proof -
  from allocates_all [of yogaNode] assms(1)
  have "stable h' (length h) a (styleNodeFromYogaNode yogaNode)"
    by (auto simp: allocates_def split: prod.splits)
  moreover have "g ! i = h' ! i" if "i < length h'" for i
    using assms(3) that by (metis nth_take)
  ultimately have "denotes g a (styleNodeFromYogaNode yogaNode)"
    using assms(2) by (simp add: stable_def)
  then show ?thesis
    by (auto dest: denotes_unique)
qed

subsection \<open>The input tree after a call\<close>

lemma replayable_visited:
  "replayableChildren c \<Longrightarrow> RElement e \<in> set (mapIntoArray c) \<Longrightarrow> etype e = NodeT \<Longrightarrow>
   replayable e"
proof (induction c rule: mapIntoArray.induct)
  case (8 cs)
  then show ?case by (auto simp: list_all_iff)
qed auto

lemma mapIntoArray_st_snd:
  "replayableChildren c \<Longrightarrow> (\<And>x a. x \<in> set (mapIntoArray c) \<Longrightarrow> snd (fn x a) = x) \<Longrightarrow>
     snd (mapIntoArray_st c fn acc) = c"
  "list_all replayableChildren cs \<Longrightarrow>
     (\<And>x a. x \<in> set (concat (map mapIntoArray cs)) \<Longrightarrow> snd (fn x a) = x) \<Longrightarrow>
     snd (mapIntoArray_items cs fn acc) = cs"
proof (induction c fn acc and cs fn acc rule: mapIntoArray_st_mapIntoArray_items.induct)
  case (11 c cs fn acc)
  obtain acc1 c' where r: "mapIntoArray_st c fn acc = (acc1, c')"
    by (cases "mapIntoArray_st c fn acc")
  have "snd (mapIntoArray_st c fn acc) = c"
    by (rule "11.IH"(1)) (use "11.prems" in simp_all)
  with r have c: "c' = c"
    by simp
  have "snd (mapIntoArray_items cs fn acc1) = cs"
    by (rule "11.IH"(2) [OF refl r [symmetric]]) (use "11.prems" in simp_all)
  then show ?case
    by (simp add: r c case_prod_beta)
qed (simp_all add: case_prod_beta)

lemma Children_forEach_st_snd:
  assumes "replayableChildren c"
    and "\<And>x a. x \<in> set (mapChildren c) \<Longrightarrow> snd (fn x a) = x"
  shows "snd (Children_forEach_st c fn acc) = c"
proof -
  have "snd (mapIntoArray_st c fn acc) = c" if "mapChildren c = mapIntoArray c"
    by (rule mapIntoArray_st_snd(1)) (use assms that in simp_all)
  then show ?thesis
    by (cases c) (simp_all del: mapIntoArray_st.simps mapIntoArray.simps)
qed

lemma replayable_children:
  "replayable yogaNode \<Longrightarrow> RElement e \<in> set (mapChildren (props_children yogaNode)) \<Longrightarrow>
   etype e = NodeT \<Longrightarrow> replayable e"
proof -
  assume r: "replayable yogaNode" and m: "RElement e \<in> set (mapChildren (props_children yogaNode))"
    and t: "etype e = NodeT"
  from r have c: "replayableChildren (props_children yogaNode)"
    by (cases yogaNode) simp
  from m have "RElement e \<in> set (mapIntoArray (props_children yogaNode))"
    by (cases "props_children yogaNode") simp_all
  with c show "replayable e"
    using t by (rule replayable_visited)
qed

lemma replayable_unchanged:
  "replayable (yogaNode :: ('s, 'n) ReactElement) \<Longrightarrow>
   snd (styleNodeFromYogaNode_call yogaNode h) = yogaNode"
proof (induction yogaNode arbitrary: h rule: styleNodeFromYogaNode.induct)
  case (1 yogaNode)
  have c: "replayableChildren (props_children yogaNode)"
    using "1.prems" by (cases yogaNode) simp
  have "snd (visitChild (length h) x a) = x"
    if "x \<in> set (mapChildren (props_children yogaNode))" for x and a :: "'s heap"
  proof (cases "asNode x")
    case None
    then show ?thesis
      by (cases x) (simp_all add: visitChild_def split: if_splits)
  next
    case (Some e)
    then have x: "x = RElement e" and t: "etype e = NodeT"
      by (cases x; simp split: if_splits)+
    from "1.prems" that x t have "replayable e"
      by (simp add: replayable_children)
    with "1.IH" [OF that x t] have "snd (styleNodeFromYogaNode_call e a) = e" .
    then show ?thesis
      by (simp add: visitChild_def x t case_prod_beta)
  qed
  with c have "snd (Children_forEach_st (props_children yogaNode) (visitChild (length h))
      (h @ [ArrayObject []])) = props_children yogaNode"
    by (rule Children_forEach_st_snd)
  then show ?case
    by (simp add: call_unfold case_prod_beta)
qed

text \<open>
  C5, amended. For a tree in which the flattener meets no iterable that can be iterated
  only once and has items left, a call leaves the tree as it was and changes no object
  that existed before it. Two calls, one after the other, return two different objects;
  in the heap after both, each of the two is a style node for the same value and for no
  other, the value of the flattener on the tree.
\<close>

theorem styleNodeFromYogaNode_replay:
  assumes "replayable yogaNode"
    and "styleNodeFromYogaNode_call yogaNode h = ((a1, h1), yogaNode1)"
    and "styleNodeFromYogaNode_call yogaNode1 h1 = ((a2, h2), yogaNode2)"
  shows "yogaNode1 = yogaNode \<and> yogaNode2 = yogaNode \<and> a1 \<noteq> a2 \<and>
         (\<forall>sn. denotes h2 a1 sn \<longleftrightarrow> sn = styleNodeFromYogaNode yogaNode) \<and>
         (\<forall>sn. denotes h2 a2 sn \<longleftrightarrow> sn = styleNodeFromYogaNode yogaNode) \<and>
         take (length h) h1 = h \<and> take (length h1) h2 = h1"
proof -
  from replayable_unchanged [OF assms(1), of h] assms(2)
  have y1: "yogaNode1 = yogaNode"
    by simp
  from replayable_unchanged [OF assms(1), of h1] assms(3) y1
  have y2: "yogaNode2 = yogaNode"
    by simp
  have c1: "fst (styleNodeFromYogaNode_call yogaNode h) = (a1, h1)"
    using assms(2) by simp
  have c2: "fst (styleNodeFromYogaNode_call yogaNode h1) = (a2, h2)"
    using assms(3) y1 by simp
  from allocates_all [of yogaNode] c1
  have 1: "a1 < length h1" "take (length h) h1 = h"
    by (auto simp: allocates_def split: prod.splits)
  from allocates_all [of yogaNode] c2
  have 2: "length h1 \<le> a2" "a2 < length h2" "take (length h1) h2 = h1"
    by (auto simp: allocates_def split: prod.splits)
  have "denotes h2 a1 sn \<longleftrightarrow> sn = styleNodeFromYogaNode yogaNode" for sn
    using c1 by (rule denotes_result) (use 2 in simp_all)
  moreover have "denotes h2 a2 sn \<longleftrightarrow> sn = styleNodeFromYogaNode yogaNode" for sn
    using c2 by (rule denotes_result) simp_all
  ultimately show ?thesis
    using 1 2 y1 y2 by simp
qed

theorem styleNodeFromYogaNode_replay_witness:
  "replayable defaultCode_root \<and>
   styleNodeFromYogaNode_call defaultCode_root [] = ((3, example_heap), defaultCode_root) \<and>
   styleNodeFromYogaNode_call defaultCode_root example_heap
     = ((7, example_heap @ example_heap'), defaultCode_root) \<and>
   (3 :: addr) \<noteq> 7 \<and>
   denotes (example_heap @ example_heap') 3 (styleNodeFromYogaNode defaultCode_root) \<and>
   denotes (example_heap @ example_heap') 7 (styleNodeFromYogaNode defaultCode_root) \<and>
   take (length example_heap) (example_heap @ example_heap') = example_heap"
proof -
  have r: "replayable defaultCode_root"
    by (simp add: defaultCode_root_def)
  have 1: "styleNodeFromYogaNode_call defaultCode_root [] = ((3, example_heap), defaultCode_root)"
    by (simp add: call_unfold defaultCode_root_def visitChild_def push_def alloc_def
          example_heap_def)
  have 2: "styleNodeFromYogaNode_call defaultCode_root example_heap
             = ((7, example_heap @ example_heap'), defaultCode_root)"
    by (simp add: call_unfold defaultCode_root_def visitChild_def push_def alloc_def
          example_heap_def example_heap'_def)
  from styleNodeFromYogaNode_replay [OF r 1 2] r 1 2 show ?thesis
    by simp
qed

text \<open>
  C5 as stated fails for a node whose children are a generator object that yields one
  \<^verbatim>\<open>Node\<close> element. The first call iterates the generator and returns a node with one
  child; it leaves the generator exhausted, so the tree is not as it was, and the second
  call returns a node without children.
\<close>

theorem styleNodeFromYogaNode_generator_counterexample:
  "styleNodeFromYogaNode_call generator_root [] = ((3, generator_heap), exhausted_root) \<and>
   styleNodeFromYogaNode_call exhausted_root generator_heap
     = ((5, generator_heap @ generator_heap'), exhausted_root) \<and>
   exhausted_root \<noteq> generator_root \<and>
   denotes (generator_heap @ generator_heap') 3
     (StyleNode [(''width'', Num 350)] [StyleNode [(''flex'', Num 1)] []]) \<and>
   denotes (generator_heap @ generator_heap') 5 (StyleNode [(''width'', Num 350)] [])"
proof -
  have 1: "styleNodeFromYogaNode_call generator_root [] = ((3, generator_heap), exhausted_root)"
    by (simp add: call_unfold generator_root_def exhausted_root_def visitChild_def push_def
          alloc_def generator_heap_def)
  have 2: "styleNodeFromYogaNode_call exhausted_root generator_heap
             = ((5, generator_heap @ generator_heap'), exhausted_root)"
    by (simp add: call_unfold exhausted_root_def visitChild_def push_def alloc_def
          generator_heap_def generator_heap'_def)
  have 3: "exhausted_root \<noteq> generator_root"
    by (simp add: generator_root_def exhausted_root_def)
  have v1: "styleNodeFromYogaNode generator_root
      = StyleNode [(''width'', Num 350)] [StyleNode [(''flex'', Num 1)] []]"
    by (simp add: generator_root_def styleNodeFromYogaNode_unfold recognizedChildren_def
          List.map_filter_simps)
  have v2: "styleNodeFromYogaNode exhausted_root = StyleNode [(''width'', Num 350)] []"
    by (simp add: exhausted_root_def styleNodeFromYogaNode_unfold recognizedChildren_def
          List.map_filter_simps)
  have "denotes (generator_heap @ generator_heap') 3 (styleNodeFromYogaNode generator_root)"
    using denotes_result [of generator_root "[]" 3 generator_heap
        "generator_heap @ generator_heap'" "styleNodeFromYogaNode generator_root"] 1
    by simp
  moreover
  have "denotes (generator_heap @ generator_heap') 5 (styleNodeFromYogaNode exhausted_root)"
    using denotes_result [of exhausted_root generator_heap 5 "generator_heap @ generator_heap'"
        "generator_heap @ generator_heap'" "styleNodeFromYogaNode exhausted_root"] 2
    by simp
  ultimately show ?thesis
    using 1 2 3 by (simp add: v1 v2)
qed

section \<open>Properties of the layout wrapper\<close>

lemma Children_count_length: "Children_count c = length (mapChildren c)"
proof -
  have "fold (\<lambda>_ n. n + 1) xs k = k + length xs" for xs :: "('a, 'b) ReactNode list" and k :: nat
    by (induction xs arbitrary: k) simp_all
  then show ?thesis
    by (simp add: Children_count_def Children_forEach_def)
qed

lemma Layout_count_not_one:
  "Children_count c \<noteq> 1 \<Longrightarrow> Layout c config = Inr Nothing"
  by (simp add: Layout_def)

lemma Layout_other_element:
  "etype e \<noteq> NodeT \<Longrightarrow> Layout (RElement e) config = Inr Nothing"
  by (simp add: Layout_def Children_count_length Children_only_def)

lemma Layout_throws_iff:
  "(\<exists>err. Layout c config = Inl err) \<longleftrightarrow> Children_count c = 1 \<and> \<not> isValidElement c"
  by (cases c) (auto simp: Layout_def Children_only_def Let_def)

text \<open>
  C2. With the single text child of \<^verbatim>\<open><Layout>hello</Layout>\<close> the count is one and the
  child is no valid element, yet \<^verbatim>\<open>Layout\<close> does not return \<^verbatim>\<open>null\<close>: the call of
  \<^verbatim>\<open>React.Children.only\<close> throws before the test that would return \<^verbatim>\<open>null\<close> is
  reached.
\<close>

theorem Layout_text_child_throws:
  "Children_count (RString ''hello'') = 1 \<and>
   \<not> isValidElement (RString ''hello'') \<and>
   Layout (RString ''hello'') config
     = Inl (Error ''React.Children.only expected to receive a single React element child.'')"
  by (simp add: Layout_def Children_count_length Children_only_def)

theorem Layout_text_child_throws_witness:
  "Children_count (RString ''hello'' :: (FlexStyle, int) ReactNode) = 1 \<and>
   \<not> isValidElement (RString ''hello'' :: (FlexStyle, int) ReactNode) \<and>
   Layout (RString ''hello'' :: (FlexStyle, int) ReactNode) (Some \<lparr>useWebDefaults = Some False\<rparr>)
     = Inl (Error ''React.Children.only expected to receive a single React element child.'')"
  by (rule Layout_text_child_throws)

text \<open>
  When the children value is itself one element of type \<^verbatim>\<open>Node\<close>, \<^verbatim>\<open>Layout\<close> returns a
  result that uses the layout-visualization component exactly once, with the flattened
  child as \<^verbatim>\<open>rootNode\<close> and \<^verbatim>\<open>config?.useWebDefaults\<close> as \<^verbatim>\<open>useWebDefaults\<close>.
\<close>

lemma Layout_single_Node:
  assumes "etype e = NodeT"
  shows "Layout (RElement e) config
           = Inr (Suspense Nothing
               (LazyYogaViewer (styleNodeFromYogaNode e) (Option.bind config useWebDefaults))) \<and>
         (\<exists>r. Layout (RElement e) config = Inr r \<and>
              viewerCalls r = [(styleNodeFromYogaNode e, Option.bind config useWebDefaults)])"
  using assms by (simp add: Layout_def Children_count_length Children_only_def)

text \<open>
  C3. With the children of \<^verbatim>\<open><Layout>{[<Node style={{flex: 1}} />]}</Layout>\<close>, an array
  that holds one \<^verbatim>\<open>Node\<close> element, the count is one and the one child visited is a
  recognised \<^verbatim>\<open>Node\<close>, yet \<^verbatim>\<open>Layout\<close> does not hand the flattened child to the
  layout-visualization component: \<^verbatim>\<open>React.Children.only\<close> throws, because the children
  value is not itself an element.
\<close>

theorem Layout_array_child_throws:
  assumes "etype e = NodeT"
  shows "Children_count (RArray [RElement e]) = 1 \<and>
         mapChildren (RArray [RElement e]) = [RElement e] \<and>
         isRecognized (RElement e) \<and>
         Layout (RArray [RElement e]) config
           = Inl (Error ''React.Children.only expected to receive a single React element child.'')"
  using assms
  by (simp add: Layout_def Children_count_length Children_only_def isRecognized_def)

theorem Layout_array_child_throws_witness:
  "etype (Element NodeT [(''flex'', Num 1)] RUndefined :: (FlexStyle, int) ReactElement) = NodeT \<and>
   Children_count (RArray [RElement (Element NodeT [(''flex'', Num 1)] RUndefined)]
     :: (FlexStyle, int) ReactNode) = 1 \<and>
   isRecognized (RElement (Element NodeT [(''flex'', Num 1)] RUndefined)
     :: (FlexStyle, int) ReactNode) \<and>
   Layout (RArray [RElement (Element NodeT [(''flex'', Num 1)] RUndefined)]
       :: (FlexStyle, int) ReactNode) (Some \<lparr>useWebDefaults = Some False\<rparr>)
     = Inl (Error ''React.Children.only expected to receive a single React element child.'')"
proof -
  have t: "etype (Element NodeT [(''flex'', Num 1)] RUndefined :: (FlexStyle, int) ReactElement)
      = NodeT"
    by simp
  from Layout_array_child_throws [OF t, of "Some \<lparr>useWebDefaults = Some False\<rparr>"] t
  show ?thesis by simp
qed

section \<open>Properties of the copy action\<close>

text \<open>
  C7. When the editor's code region is found, \<^verbatim>\<open>getCode\<close> returns its text content;
  when it is not found, \<^verbatim>\<open>getCode\<close> throws; and it throws in no other case, also not
  when the region holds no text.
\<close>

theorem getCode_editorRegion:
  "(case editorRegion playgroundRef_current of
      None \<Rightarrow> getCode playgroundRef_current = Inl (Error ''Got unexpected undefined'')
    | Some codeElem \<Rightarrow> getCode playgroundRef_current = Inr (textContent codeElem)) \<and>
   (isl (getCode playgroundRef_current) \<longleftrightarrow> editorRegion playgroundRef_current = None)"
  by (cases playgroundRef_current)
     (auto simp: getCode_def editorRegion_def nullthrows_def split: option.splits)

section \<open>Properties of the playground component\<close>

lemma liveCode_commit: "liveCode (commit env st) = liveCode st"
  by (simp add: commit_def focusEffect_def focusBody_def layoutEffect_def Let_def
        split: option.splits)

lemma liveCode_step:
  "liveCode (step ev st) = latestEdit (liveCode st) [ev]"
  by (cases ev) (simp_all add: liveCode_commit)

lemma liveCode_run: "liveCode (run st evs) = latestEdit (liveCode st) evs"
proof (induction evs arbitrary: st)
  case Nil
  show ?case by (simp add: run_def)
next
  case (Cons ev evs)
  have "liveCode (run st (ev # evs)) = latestEdit (liveCode (step ev st)) evs"
    using Cons.IH [of "step ev st"] by (simp add: run_def)
  also have "\<dots> = latestEdit (liveCode st) (ev # evs)"
    by (cases ev) (simp_all add: liveCode_commit)
  finally show ?case .
qed

text \<open>
  C10. The held snippet text starts as the \<^verbatim>\<open>code\<close> prop, or as the default snippet
  when the prop is absent; after any run it is the text of the last \<^verbatim>\<open>onChange\<close>, or
  still the initial text when the editor never changed it. A render with other props, a
  changed \<^verbatim>\<open>code\<close> among them, leaves it as it is, and it is the code that is given to
  the evaluator.
\<close>

theorem liveCode_held:
  "liveCode (run (mount p env0) evs)
     = latestEdit (case code p of None \<Rightarrow> defaultCode | Some c \<Rightarrow> c) evs \<and>
   liveCode (step (Render p' env) st) = liveCode st \<and>
   LiveProvider_code (render st) = liveCode st"
  by (simp add: liveCode_run liveCode_commit mount_def initial_def render_def)

lemma scrollbarWidth_commit:
  "scrollbarWidth (commit env st) =
     (case editorScrollRef env of None \<Rightarrow> scrollbarWidth st | Some el \<Rightarrow> offsetWidth el - clientWidth el)"
  by (simp add: commit_def focusEffect_def focusBody_def layoutEffect_def Let_def
        split: option.splits)

lemma scrollbarWidth_commit_nonneg:
  "layoutSane env \<Longrightarrow> 0 \<le> scrollbarWidth st \<Longrightarrow> 0 \<le> scrollbarWidth (commit env st)"
  by (simp add: scrollbarWidth_commit layoutSane_def split: option.splits)

lemma scrollbarWidth_step_nonneg:
  "layoutSane (envOf ev) \<Longrightarrow> 0 \<le> scrollbarWidth st \<Longrightarrow> 0 \<le> scrollbarWidth (step ev st)"
  by (cases ev) (simp_all add: scrollbarWidth_commit_nonneg)

lemma scrollbarWidth_run_nonneg:
  "list_all (\<lambda>ev. layoutSane (envOf ev)) evs \<Longrightarrow> 0 \<le> scrollbarWidth st \<Longrightarrow>
   0 \<le> scrollbarWidth (run st evs)"
proof (induction evs arbitrary: st)
  case Nil
  then show ?case by (simp add: run_def)
next
  case (Cons ev evs)
  from Cons.prems have "0 \<le> scrollbarWidth (step ev st)"
    by (simp add: scrollbarWidth_step_nonneg)
  with Cons.prems Cons.IH [of "step ev st"] show ?case
    by (simp add: run_def)
qed

text \<open>
  C9, amended. A commit that finds the scroll container sets the compensation to the
  container's \<^verbatim>\<open>offsetWidth\<close> minus its \<^verbatim>\<open>clientWidth\<close>, which is then the toolbar's
  right padding in pixels; a commit that does not find the container leaves it as it is.
  The compensation starts at zero and is never negative in a run in which every
  container measured is at least as wide outside as inside.
\<close>

theorem scrollbarWidth_compensation:
  assumes "layoutSane env0" and "list_all (\<lambda>ev. layoutSane (envOf ev)) evs"
  shows "0 \<le> scrollbarWidth (run (mount p env0) evs) \<and>
         (case editorScrollRef env of
            None \<Rightarrow>
              scrollbarWidth (commit env (run (mount p env0) evs))
                = scrollbarWidth (run (mount p env0) evs)
          | Some el \<Rightarrow>
              scrollbarWidth (commit env (run (mount p env0) evs))
                = offsetWidth el - clientWidth el \<and>
              EditorToolbar_paddingRight (render (commit env (run (mount p env0) evs)))
                = toString (offsetWidth el - clientWidth el) @ ''px'')"
proof -
  have "0 \<le> scrollbarWidth (mount p env0)"
    using assms(1) by (simp add: mount_def scrollbarWidth_commit_nonneg initial_def)
  with assms(2) have "0 \<le> scrollbarWidth (run (mount p env0) evs)"
    by (rule scrollbarWidth_run_nonneg)
  then show ?thesis
    by (simp add: scrollbarWidth_commit render_def split: option.splits)
qed

theorem scrollbarWidth_compensation_witness:
  "layoutSane hidden_env \<and>
   list_all (\<lambda>ev. layoutSane (envOf ev))
     [PreviewMounted hidden_env, EditorChange ''<Layout />'' example_env] \<and>
   0 \<le> scrollbarWidth
     (run (mount \<lparr>code = None, autoFocus = None\<rparr> hidden_env)
        [PreviewMounted hidden_env, EditorChange ''<Layout />'' example_env]) \<and>
   scrollbarWidth
     (commit example_env
        (run (mount \<lparr>code = None, autoFocus = None\<rparr> hidden_env)
           [PreviewMounted hidden_env, EditorChange ''<Layout />'' example_env])) = 15 \<and>
   EditorToolbar_paddingRight
     (render (commit example_env
        (run (mount \<lparr>code = None, autoFocus = None\<rparr> hidden_env)
           [PreviewMounted hidden_env, EditorChange ''<Layout />'' example_env]))) = ''15px''"
proof -
  have h: "layoutSane hidden_env"
    by (simp add: layoutSane_def hidden_env_def)
  have e: "list_all (\<lambda>ev. layoutSane (envOf ev))
     [PreviewMounted hidden_env, EditorChange ''<Layout />'' example_env]"
    by (simp add: layoutSane_def hidden_env_def example_env_def example_scroll_def)
  have s: "toString 15 @ ''px'' = ''15px''"
    by (simp add: toString_def natString.simps)
  from scrollbarWidth_compensation
         [OF h e, of "\<lparr>code = None, autoFocus = None\<rparr>" example_env] h e s
  show ?thesis
    by (simp add: example_env_def example_scroll_def)
qed

text \<open>
  C9 as stated fails where the container's inner width exceeds its outer width: the
  difference is taken as it is, so the compensation is negative and the toolbar gets a
  negative padding.
\<close>

theorem scrollbarWidth_negative_counterexample:
  "scrollbarWidth (mount \<lparr>code = None, autoFocus = None\<rparr> inverted_env) = - 15 \<and>
   EditorToolbar_paddingRight (render (mount \<lparr>code = None, autoFocus = None\<rparr> inverted_env))
     = ''-15px''"
proof -
  have s: "toString (- 15) @ ''px'' = ''-15px''"
    by (simp add: toString_def natString.simps)
  have "scrollbarWidth (mount \<lparr>code = None, autoFocus = None\<rparr> inverted_env) = - 15"
    by (simp add: mount_def scrollbarWidth_commit inverted_env_def)
  with s show ?thesis
    by (simp add: render_def)
qed

lemma focusBody_carets:
  "carets (focusBody env st) =
     carets st @ (if isLoaded st \<and> autoFocus (props st) = Some True then focusTarget env else [])"
  by (cases "playgroundRef env")
     (simp_all add: focusBody_def focusTarget_def editorRegion_def split: option.splits)

lemma focusBody_other:
  "isLoaded (focusBody env st) = isLoaded st" "props (focusBody env st) = props st"
  by (simp_all add: focusBody_def Let_def split: option.splits)

lemma layoutEffect_other:
  "isLoaded (layoutEffect env st) = isLoaded st" "props (layoutEffect env st) = props st"
  "effectDeps (layoutEffect env st) = effectDeps st" "carets (layoutEffect env st) = carets st"
  by (simp_all add: layoutEffect_def split: option.splits)

lemma commit_other:
  "isLoaded (commit env st) = isLoaded st" "props (commit env st) = props st"
  "effectDeps (commit env st) = Some (isLoaded st, autoFocus (props st))"
  by (simp_all add: commit_def focusEffect_def Let_def focusBody_other layoutEffect_other)

lemma commit_carets:
  "carets (commit env st) =
     (if effectDeps st = Some (isLoaded st, autoFocus (props st)) then carets st
      else carets st @ (if isLoaded st \<and> autoFocus (props st) = Some True then focusTarget env else []))"
  by (simp add: commit_def focusEffect_def Let_def focusBody_carets layoutEffect_other)

lemma step_settled:
  "settled st \<Longrightarrow> requests ev \<Longrightarrow> settled (step ev st)"
  by (cases ev) (simp_all add: settled_def commit_other)

lemma step_carets:
  "settled st \<Longrightarrow> requests ev \<Longrightarrow>
   carets (step ev st) =
     carets st @ (if isLoaded st then [] else
                    case firstPreviewMounted [ev] of None \<Rightarrow> [] | Some env \<Rightarrow> focusTarget env)"
  by (cases ev) (simp_all add: settled_def commit_carets)

lemma step_isLoaded:
  "isLoaded (step ev st) = (isLoaded st \<or> firstPreviewMounted [ev] \<noteq> None)"
  by (cases ev) (simp_all add: commit_other)

lemma run_carets:
  "settled st \<Longrightarrow> list_all requests evs \<Longrightarrow>
   carets (run st evs) =
     carets st @ (if isLoaded st then [] else
                    case firstPreviewMounted evs of None \<Rightarrow> [] | Some env \<Rightarrow> focusTarget env)"
proof (induction evs arbitrary: st)
  case Nil
  show ?case by (simp add: run_def)
next
  case (Cons ev evs)
  from Cons.prems have e: "requests ev" and r: "list_all requests evs"
    by simp_all
  from Cons.prems(1) e have s: "settled (step ev st)"
    by (rule step_settled)
  have "carets (run st (ev # evs)) = carets (run (step ev st) evs)"
    by (simp add: run_def)
  also have "\<dots> = carets (step ev st) @
      (if isLoaded (step ev st) then [] else
         case firstPreviewMounted evs of None \<Rightarrow> [] | Some env \<Rightarrow> focusTarget env)"
    by (rule Cons.IH [OF s r])
  also have "\<dots> = carets st @
      (if isLoaded st then [] else
         case firstPreviewMounted (ev # evs) of None \<Rightarrow> [] | Some env \<Rightarrow> focusTarget env)"
    unfolding step_isLoaded step_carets [OF Cons.prems(1) e]
    by (cases ev) simp_all
  finally show ?case .
qed

lemma mount_settled: "autoFocus p = Some True \<Longrightarrow> settled (mount p env0)"
  by (simp add: settled_def mount_def commit_other initial_def)

text \<open>
  C8, amended. When the auto-focus flag is requested at mount and in every later
  render, the caret is placed at most once: nowhere before the preview wrapper has
  mounted, and in the commit of its first mounting on the editor's code region,
  provided the region is there with a non-zero height and a selection object exists.
  No later event of the run places it again.
\<close>

theorem autoFocus_once:
  assumes "autoFocus p = Some True" and "list_all requests evs"
  shows "carets (run (mount p env0) evs) =
           (case firstPreviewMounted evs of None \<Rightarrow> [] | Some env \<Rightarrow> focusTarget env)"
proof -
  have "carets (mount p env0) = []" "\<not> isLoaded (mount p env0)"
    by (simp_all add: mount_def commit_carets commit_other initial_def)
  with run_carets [OF mount_settled [OF assms(1)] assms(2), of env0] show ?thesis
    by simp
qed

theorem autoFocus_once_witness:
  "autoFocus \<lparr>code = None, autoFocus = Some True\<rparr> = Some True \<and>
   list_all requests
     [Render \<lparr>code = Some ''<Layout />'', autoFocus = Some True\<rparr> hidden_env,
      PreviewMounted example_env,
      EditorChange ''<Layout></Layout>'' example_env,
      PreviewMounted example_env] \<and>
   carets (run (mount \<lparr>code = None, autoFocus = Some True\<rparr> hidden_env)
     [Render \<lparr>code = Some ''<Layout />'', autoFocus = Some True\<rparr> hidden_env,
      PreviewMounted example_env,
      EditorChange ''<Layout></Layout>'' example_env,
      PreviewMounted example_env]) = [example_editor]"
proof -
  have a: "autoFocus \<lparr>code = None, autoFocus = Some True\<rparr> = Some True"
    by simp
  have r: "list_all requests
     [Render \<lparr>code = Some ''<Layout />'', autoFocus = Some True\<rparr> hidden_env,
      PreviewMounted example_env,
      EditorChange ''<Layout></Layout>'' example_env,
      PreviewMounted example_env]"
    by simp
  have t: "focusTarget example_env = [example_editor]"
    by (simp add: focusTarget_def editorRegion_def querySelector_def example_env_def
          example_scroll_def example_editor_def)
  from autoFocus_once [OF a r, of hidden_env] a r t show ?thesis
    by simp
qed

text \<open>
  C8 as stated fails in two ways. With the flag requested and the preview mounted, a
  render without the flag followed by a render with it places the caret a second time;
  and when the editor's code region has no height at the commit that follows the
  preview's mounting, the caret is never placed at all.
\<close>

theorem autoFocus_counterexample:
  "autoFocus \<lparr>code = None, autoFocus = Some True\<rparr> = Some True \<and>
   carets (run (mount \<lparr>code = None, autoFocus = Some True\<rparr> example_env)
     [PreviewMounted example_env,
      Render \<lparr>code = None, autoFocus = Some False\<rparr> example_env,
      Render \<lparr>code = None, autoFocus = Some True\<rparr> example_env])
     = [example_editor, example_editor] \<and>
   carets (run (mount \<lparr>code = None, autoFocus = Some True\<rparr> hidden_env)
     [PreviewMounted hidden_env,
      Render \<lparr>code = None, autoFocus = Some True\<rparr> example_env])
     = []"
proof -
  have t: "focusTarget example_env = [example_editor]"
    by (simp add: focusTarget_def editorRegion_def querySelector_def example_env_def
          example_scroll_def example_editor_def)
  have h: "focusTarget hidden_env = []"
    by (simp add: focusTarget_def editorRegion_def querySelector_def hidden_env_def
          hidden_editor_def)
  show ?thesis
    by (simp add: run_def mount_def initial_def commit_carets commit_other t h)
qed

end
